theory Spec2Isabelle
  imports Complex_Main
begin

section \<open>Quoting engine (mod.ts: \<open>quoteString\<close>)\<close>

text \<open>
  A JavaScript string is modelled as a \<^typ>\<open>string\<close>, one \<^typ>\<open>char\<close> per code unit.
  The two quote characters are named, since they cannot be written inside a literal.
\<close>

definition sq :: char where
  "sq = CHR 0x27"

definition dq :: char where
  "dq = CHR 0x22"

text \<open>
  \<^verbatim>\<open>const safeShellCharsRE = /^[A-Za-z0-9,:=_\.\/\-]+$/;\<close>
  The character class, and the test of the whole anchored pattern: one or more characters,
  all of the class (a JavaScript \<open>$\<close> without the \<open>m\<close> flag matches at the very end only).
\<close>

definition safeShellChar :: "char \<Rightarrow> bool" where
  "safeShellChar c \<longleftrightarrow>
     c \<in> set (''ABCDEFGHIJKLMNOPQRSTUVWXYZ'' @ ''abcdefghijklmnopqrstuvwxyz''
              @ ''0123456789'' @ '',:=_./-'')"

definition safeShellCharsRE_test :: "string \<Rightarrow> bool" where
  "safeShellCharsRE_test s \<longleftrightarrow> s \<noteq> [] \<and> list_all safeShellChar s"

text \<open>
  \<^verbatim>\<open>s.replace(singleQuoteSpanRE, (m) => `'"${m}"'`)\<close> with
  \<^verbatim>\<open>singleQuoteSpanRE = /'+/g\<close>: the scan goes left to right; at a single quote the
  greedy \<open>'+\<close> takes the whole run \<open>m\<close>, which is replaced by \<open>'"m"'\<close>, and the scan goes on
  behind the run; any other character is copied.
\<close>

function replaceQuoteSpans :: "string \<Rightarrow> string" where
  "replaceQuoteSpans [] = []"
| "replaceQuoteSpans (c # cs) =
     (if c = sq
      then [sq, dq] @ (c # takeWhile (\<lambda>x. x = sq) cs) @ [dq, sq]
           @ replaceQuoteSpans (dropWhile (\<lambda>x. x = sq) cs)
      else c # replaceQuoteSpans cs)"
  by pat_completeness auto
termination
  by (relation "measure length") (auto simp: less_Suc_eq_le length_dropWhile_le)

text \<open>\<^verbatim>\<open>s.replace(/^''/, "")\<close>: an empty pair of single quotes at position 0 is removed.\<close>

definition stripLeadingPair :: "string \<Rightarrow> string" where
  "stripLeadingPair s = (if take 2 s = [sq, sq] then drop 2 s else s)"

text \<open>\<^verbatim>\<open>s.replace(/''$/, "")\<close>: an empty pair of single quotes at the very end is removed.\<close>

definition stripTrailingPair :: "string \<Rightarrow> string" where
  "stripTrailingPair s =
     (if 2 \<le> length s \<and> drop (length s - 2) s = [sq, sq] then take (length s - 2) s else s)"

text \<open>
  \<^verbatim>\<open>
  export function quoteString(s: string): string {
    if (!s) return "''";
    if (safeShellCharsRE.test(s)) return s;
    s = "'" + s.replace(singleQuoteSpanRE, (m) => `'"${m}"'`) + "'";
    s = s.replace(/^''/, "");
    s = s.replace(/''$/, "");
    return s;
  }
  \<close>
\<close>

definition quoteString :: "string \<Rightarrow> string" where
  "quoteString s =
     (if s = [] then [sq, sq]
      else if safeShellCharsRE_test s then s
      else stripTrailingPair (stripLeadingPair ([sq] @ replaceQuoteSpans s @ [sq])))"

subsection \<open>The shell's reading of one word\<close>

text \<open>
  The reference de-quoting function: the quote removal a POSIX shell performs on one word,
  for the three forms \<open>quoteString\<close> produces. Outside quotes only characters of the safe
  class are accepted (anything else, white space included, would end the word or be
  expanded); a single-quoted span keeps every character up to the closing quote; a
  double-quoted span keeps every character up to the closing quote, and is refused when it
  holds one of the characters the shell still interprets there (\<open>$\<close>, backquote, backslash).
  \<open>None\<close> means: not one literal word of this grammar (also an unterminated quote).
\<close>

datatype quoting = Bare | InSingle | InDouble

fun dequote :: "quoting \<Rightarrow> string \<Rightarrow> string option" where
  "dequote Bare [] = Some []"
| "dequote InSingle [] = None"
| "dequote InDouble [] = None"
| "dequote Bare (c # cs) =
     (if c = sq then dequote InSingle cs
      else if c = dq then dequote InDouble cs
      else if safeShellChar c then map_option ((#) c) (dequote Bare cs)
      else None)"
| "dequote InSingle (c # cs) =
     (if c = sq then dequote Bare cs else map_option ((#) c) (dequote InSingle cs))"
| "dequote InDouble (c # cs) =
     (if c = dq then dequote Bare cs
      else if c \<in> set ''$`'' \<or> c = CHR 0x5C then None
      else map_option ((#) c) (dequote InDouble cs))"

definition shellWord :: "string \<Rightarrow> string option" where
  "shellWord w = dequote Bare w"

subsection \<open>The quoting rule in the words of the specification\<close>

text \<open>
  The specification describes the quoted form through the maximal runs of single quotes of
  the input. \<open>quoteRuns\<close> cuts a text into its maximal stretches of quote characters and
  of other characters, working from the right; \<open>wrapRun\<close> puts a run of quotes between
  \<open>'"\<close> and \<open>"'\<close> and leaves any other stretch as it is; \<open>quoteString_spec\<close> is the
  specification's recipe for an input that is neither empty nor safe.
\<close>

fun quoteRuns :: "string \<Rightarrow> string list" where
  "quoteRuns [] = []"
| "quoteRuns (c # cs) =
     (case quoteRuns cs of
        [] \<Rightarrow> [[c]]
      | g # gs \<Rightarrow> if (c = sq) = (hd g = sq) then (c # g) # gs else [c] # g # gs)"

definition wrapRun :: "string \<Rightarrow> string" where
  "wrapRun g = (if hd g = sq then [sq, dq] @ g @ [dq, sq] else g)"

definition quoteString_spec :: "string \<Rightarrow> string" where
  "quoteString_spec s =
     stripTrailingPair (stripLeadingPair ([sq] @ concat (map wrapRun (quoteRuns s)) @ [sq]))"

section \<open>Command template compiler (mod.ts: \<open>quote\<close>)\<close>

text \<open>
  Errors are values. \<open>TypeError\<close> is the host's error for reading a property of
  \<open>undefined\<close>; the others are the classes of action.ts; \<open>OtherError\<close> stands for
  any other thrown value.
\<close>

text \<open>
  \<^verbatim>\<open>ShellResult\<close> and \<^verbatim>\<open>ShellResultBinary\<close> are one record, with the type of the
  captured output as parameter: text for the first, bytes for the second, whose
  \<open>trimmed\<close> is always undefined.
\<close>

record 'o ShellResult =
  code :: int
  stdout :: 'o
  stderr :: 'o
  cmd :: string
  elapsedMilliseconds :: nat
  trimmed :: "bool option"

datatype error =
    TypeError
  | SkipError
  | TimeoutError
  | ShellError "string ShellResult"
  | OtherError string

text \<open>
  \<^verbatim>\<open>Array<ShellArgumentType[] | ShellArgumentType>\<close>: an argument is one scalar or an
  array of scalars. The coercion \<^verbatim>\<open>String(v)\<close> of a scalar (text, number, boolean,
  bigint) to text is the host's; it is the parameter \<open>str\<close> of the functions below.
\<close>

datatype 'v Argument = Scalar 'v | Array "'v list"

text \<open>\<^verbatim>\<open>xs.join(" ")\<close>\<close>

fun joinSpace :: "string list \<Rightarrow> string" where
  "joinSpace [] = []"
| "joinSpace [x] = x"
| "joinSpace (x # y # ys) = x @ '' '' @ joinSpace (y # ys)"

text \<open>
  \<^verbatim>\<open>pieces[k]\<close>: past the end of the array the read gives \<open>undefined\<close>, which
  \<open>+=\<close> appends as the text \<open>undefined\<close>. A tagged template never reads there: it passes
  one piece more than it passes arguments.
\<close>

definition pieceAt :: "string list \<Rightarrow> nat \<Rightarrow> string option" where
  "pieceAt pieces k = (if k < length pieces then Some (pieces ! k) else None)"

definition textOf :: "string option \<Rightarrow> string" where
  "textOf p = (case p of None \<Rightarrow> ''undefined'' | Some t \<Rightarrow> t)"

text \<open>
  \<^verbatim>\<open>
  export function quote(pieces: TemplateStringsArray, ...args: Array<ShellArgumentType[] | ShellArgumentType>): string {
    let result = pieces[0];
    let i = 0;
    for (; i < args.length; i++) {
      const a = args[i];
      let isEmptyArrayArg = false;
      if (Array.isArray(a)) {
        const aarg = a.map((v) => quoteString(String(v))).join(" ");
        if (aarg.length === 0) {
          isEmptyArrayArg = true;
        } else {
          result += aarg;
        }
      } else {
        result += quoteString(String(a));
      }
      let p = pieces[i + 1];
      if (isEmptyArrayArg) {
        if (p.length > 0 && p[0] === " ") {
          p = p.substring(1);
        } else if (result.length > 0 && result[result.length - 1] === " ") {
          result = result.substring(0, result.length - 1);
        }
      }
      result += p;
    }
    for (++i; i < pieces.length; i++) {
      result += pieces[i];
    }
    return result;
  }
  \<close>
  The first loop is \<open>quote_loop\<close>, with the index \<open>i\<close> and the accumulated \<open>result\<close>;
  when it ends, the second loop appends the pieces from index \<open>i + 1\<close> on. With an empty
  array argument and no piece at \<open>i + 1\<close>, \<^verbatim>\<open>p.length\<close> throws a TypeError. The value
  \<open>undefined\<close> of \<open>result\<close> (no piece at 0) is represented by its text.
\<close>

definition argText :: "('v \<Rightarrow> string) \<Rightarrow> 'v Argument \<Rightarrow> string" where
  "argText str a =
     (case a of
        Array vs \<Rightarrow> joinSpace (map (\<lambda>v. quoteString (str v)) vs)
      | Scalar v \<Rightarrow> quoteString (str v))"

definition isEmptyArrayArg :: "('v \<Rightarrow> string) \<Rightarrow> 'v Argument \<Rightarrow> bool" where
  "isEmptyArrayArg str a =
     (case a of Array vs \<Rightarrow> argText str (Array vs) = [] | Scalar v \<Rightarrow> False)"

function quote_loop ::
  "('v \<Rightarrow> string) \<Rightarrow> string list \<Rightarrow> 'v Argument list \<Rightarrow> nat \<Rightarrow> string \<Rightarrow> error + string"
where
  "quote_loop str pieces args i result =
     (if i < length args then
        (let a = args ! i;
             result1 = (if isEmptyArrayArg str a then result else result @ argText str a)
         in case pieceAt pieces (i + 1) of
              None \<Rightarrow>
                if isEmptyArrayArg str a then Inl TypeError
                else quote_loop str pieces args (i + 1) (result1 @ textOf None)
            | Some p \<Rightarrow>
                if isEmptyArrayArg str a then
                  if p \<noteq> [] \<and> hd p = CHR '' '' then
                    quote_loop str pieces args (i + 1) (result1 @ tl p)
                  else if result1 \<noteq> [] \<and> last result1 = CHR '' '' then
                    quote_loop str pieces args (i + 1) (butlast result1 @ p)
                  else quote_loop str pieces args (i + 1) (result1 @ p)
                else quote_loop str pieces args (i + 1) (result1 @ p))
      else Inr (result @ concat (drop (i + 1) pieces)))"
  by pat_completeness auto
termination
  by (relation "measure (\<lambda>(str, pieces, args, i, result). length args - i)") auto

definition quote :: "('v \<Rightarrow> string) \<Rightarrow> string list \<Rightarrow> 'v Argument list \<Rightarrow> error + string" where
  "quote str pieces args = quote_loop str pieces args 0 (textOf (pieceAt pieces 0))"

subsection \<open>The compiler's rule in the words of the specification\<close>



section \<open>Composable tag functions (mod.ts: \<open>wrapTagFunction\<close>)\<close>

text \<open>
  The stages of a tag function are arbitrary host functions: they may change the world
  and they may throw. A computation takes the state of the world \<open>'s\<close> and returns its
  outcome, an error or a value, with the new state. The awaits of the source run in
  sequence. \<open>tryFinally\<close> is \<^verbatim>\<open>try { ... } finally { ... }\<close>: the second block runs
  whatever the outcome of the first; when it throws, its error replaces that outcome.
\<close>

type_synonym ('s, 'a) eff = "'s \<Rightarrow> (error + 'a) \<times> 's"

definition ret :: "'a \<Rightarrow> ('s, 'a) eff" where
  "ret x s = (Inr x, s)"

definition throw :: "error \<Rightarrow> ('s, 'a) eff" where
  "throw e s = (Inl e, s)"

definition bnd :: "('s, 'a) eff \<Rightarrow> ('a \<Rightarrow> ('s, 'b) eff) \<Rightarrow> ('s, 'b) eff" where
  "bnd m k s = (case m s of (Inl e, s1) \<Rightarrow> (Inl e, s1) | (Inr x, s1) \<Rightarrow> k x s1)"

definition tryFinally :: "('s, 'a) eff \<Rightarrow> ('s, unit) eff \<Rightarrow> ('s, 'a) eff" where
  "tryFinally body fin s =
     (case body s of (r, s1) \<Rightarrow>
        (case fin s1 of (Inl e, s2) \<Rightarrow> (Inl e, s2) | (Inr u, s2) \<Rightarrow> (r, s2)))"

definition liftResult :: "error + 'a \<Rightarrow> ('s, 'a) eff" where
  "liftResult r s = (r, s)"

text \<open>
  \<^verbatim>\<open>
  export interface MapParameters<T, U> {
    pre?: (cmd: string) => string;
    post: (result: T) => U;
    finalize?: () => void;
  }
  \<close>
  The result types \<open>T\<close> and \<open>U\<close> of the layers are one type \<open>'r\<close> of results here.
\<close>

record ('s, 'r) MapParameters =
  pre :: "(string \<Rightarrow> ('s, string) eff) option"
  post :: "'r \<Rightarrow> ('s, 'r) eff"
  finalize :: "('s, unit) eff option"

text \<open>
  A tag function as \<open>wrapTagFunction(f, exec, finalizers)\<close> builds it: the callable \<open>f\<close>
  itself, and the \<open>exec\<close> and \<open>finalizers\<close> that its \<open>map\<close> method closes over.
\<close>

record ('s, 'v, 'r) TagFunction =
  call :: "string list \<Rightarrow> 'v Argument list \<Rightarrow> ('s, 'r) eff"
  exec :: "string \<Rightarrow> ('s, 'r) eff"
  finalizers :: "('s, unit) eff option list"

text \<open>\<^verbatim>\<open>p.pre ? p.pre(cmd) : cmd\<close>\<close>

definition applyPre :: "('s, 'r) MapParameters \<Rightarrow> string \<Rightarrow> ('s, string) eff" where
  "applyPre p c = (case pre p of None \<Rightarrow> ret c | Some g \<Rightarrow> g c)"

text \<open>\<^verbatim>\<open>f?.()\<close>\<close>

definition callOptional :: "('s, unit) eff option \<Rightarrow> ('s, unit) eff" where
  "callOptional f = (case f of None \<Rightarrow> ret () | Some g \<Rightarrow> g)"

text \<open>\<^verbatim>\<open>for (const f of finalizers) { f?.(); }\<close>\<close>

fun runFinalizers :: "('s, unit) eff option list \<Rightarrow> ('s, unit) eff" where
  "runFinalizers [] = ret ()"
| "runFinalizers (f # fs) = bnd (callOptional f) (\<lambda>u. runFinalizers fs)"

text \<open>
  \<^verbatim>\<open>
  function wrapTagFunction<T>(
    f: PlainTagFunction<T>,
    exec: (cmd: string) => Promise<T>,
    finalizers: Array<(() => void) | undefined> = [],
  ): TagFunction<T> {
    const ff = f as TagFunction<T>;
    ff.map = (arg) => {
      const p = typeof arg === "function" ? { post: arg } : arg;
      const nestedExec = async (cmd: string) => p.post(await exec(p.pre ? p.pre(cmd) : cmd));
      return wrapTagFunction(
        async (...args) => {
          try {
            const q = quote(...args);
            return p.post(await exec(p.pre ? p.pre(q) : q));
          } finally {
            for (const f of finalizers) {
              f?.();
            }
            p.finalize?.();
          }
        },
        nestedExec,
        [...finalizers, p.finalize],
      );
    };
    return ff;
  }
  \<close>
  \<open>mapTag\<close> is the method \<open>map\<close> of the tag function \<open>tf\<close>, applied to the parameters
  \<open>p\<close>; \<open>postOnly\<close> is the parameter object made of a bare function.
\<close>

definition wrapTagFunction ::
  "(string list \<Rightarrow> 'v Argument list \<Rightarrow> ('s, 'r) eff) \<Rightarrow> (string \<Rightarrow> ('s, 'r) eff)
     \<Rightarrow> ('s, unit) eff option list \<Rightarrow> ('s, 'v, 'r) TagFunction" where
  "wrapTagFunction f ex fins = \<lparr>call = f, exec = ex, finalizers = fins\<rparr>"

definition postOnly :: "('r \<Rightarrow> ('s, 'r) eff) \<Rightarrow> ('s, 'r) MapParameters" where
  "postOnly g = \<lparr>pre = None, post = g, finalize = None\<rparr>"

definition nestedExec ::
  "('s, 'v, 'r) TagFunction \<Rightarrow> ('s, 'r) MapParameters \<Rightarrow> string \<Rightarrow> ('s, 'r) eff" where
  "nestedExec tf p c = bnd (applyPre p c) (\<lambda>c1. bnd (exec tf c1) (post p))"

definition mapTag ::
  "('v \<Rightarrow> string) \<Rightarrow> ('s, 'v, 'r) TagFunction \<Rightarrow> ('s, 'r) MapParameters
     \<Rightarrow> ('s, 'v, 'r) TagFunction" where
  "mapTag str tf p =
     wrapTagFunction
       (\<lambda>pieces args.
          tryFinally
            (bnd (liftResult (quote str pieces args))
               (\<lambda>q. bnd (applyPre p q) (\<lambda>c. bnd (exec tf c) (post p))))
            (bnd (runFinalizers (finalizers tf)) (\<lambda>u. callOptional (finalize p))))
       (nestedExec tf p)
       (finalizers tf @ [finalize p])"

text \<open>
  The tag function that \<open>shOpt\<close> builds around an executor \<open>ex\<close>:
  \<^verbatim>\<open>wrapTagFunction((pieces, ...args) => exec(quote(pieces, ...args)), exec)\<close>,
  with the default, empty list of finalizers.
\<close>

definition plainTag :: "('v \<Rightarrow> string) \<Rightarrow> (string \<Rightarrow> ('s, 'r) eff) \<Rightarrow> ('s, 'v, 'r) TagFunction" where
  "plainTag str ex =
     wrapTagFunction (\<lambda>pieces args. bnd (liftResult (quote str pieces args)) ex) ex []"

text \<open>A chain of \<open>map\<close> calls, in attach order.\<close>

definition mapChain ::
  "('v \<Rightarrow> string) \<Rightarrow> ('s, 'v, 'r) TagFunction \<Rightarrow> ('s, 'r) MapParameters list
     \<Rightarrow> ('s, 'v, 'r) TagFunction" where
  "mapChain str tf ps = foldl (mapTag str) tf ps"

text \<open>
  The stages of a chain, for stating in which order they run: the \<open>pre\<close> functions of a
  list applied one after the other to the command (an absent one passes it on), and the
  \<open>post\<close> functions of a list applied one after the other to the result. Neither mentions
  a finalizer.
\<close>

fun preStages :: "(string \<Rightarrow> ('s, string) eff) option list \<Rightarrow> string \<Rightarrow> ('s, string) eff" where
  "preStages [] c = ret c"
| "preStages (g # gs) c = bnd (case g of None \<Rightarrow> ret c | Some h \<Rightarrow> h c) (preStages gs)"

fun postStages :: "('r \<Rightarrow> ('s, 'r) eff) list \<Rightarrow> 'r \<Rightarrow> ('s, 'r) eff" where
  "postStages [] r = ret r"
| "postStages (g # gs) r = bnd (g r) (postStages gs)"

text \<open>A finalizer of the list that is absent, or that returns normally in every state.\<close>

definition neverThrows :: "('s, unit) eff option \<Rightarrow> bool" where
  "neverThrows f \<longleftrightarrow> (case f of None \<Rightarrow> True | Some g \<Rightarrow> \<forall>s. fst (g s) = Inr ())"

subsection \<open>Stages that leave a trace\<close>

text \<open>
  To read off the order in which stages run, the world is a list of events, latest
  last, and each stage records itself (as the stages of the repository's example print
  a line). \<open>loggingStage n\<close> is a layer with the name \<open>n\<close>: its \<open>pre\<close> appends the name to
  the command, its \<open>post\<close> passes the result on, or throws when \<open>fails\<close> is set.
\<close>

datatype event = EvPre string | EvExec string | EvPost string | EvFinalize string

definition logEvent :: "event \<Rightarrow> (event list, unit) eff" where
  "logEvent e s = (Inr (), s @ [e])"

definition loggingExec :: "string \<Rightarrow> (event list, string) eff" where
  "loggingExec c = bnd (logEvent (EvExec c)) (\<lambda>u. ret c)"

definition loggingStage :: "string \<Rightarrow> bool \<Rightarrow> (event list, string) MapParameters" where
  "loggingStage n fails =
     \<lparr>pre = Some (\<lambda>c. bnd (logEvent (EvPre n)) (\<lambda>u. ret (c @ '' '' @ n))),
      post = (\<lambda>r. bnd (logEvent (EvPost n))
                (\<lambda>u. if fails then throw (OtherError n) else ret r)),
      finalize = Some (logEvent (EvFinalize n))\<rparr>"

text \<open>A finalizer that records itself and then throws.\<close>

definition throwingFinalizer :: "string \<Rightarrow> (event list, string) MapParameters" where
  "throwingFinalizer n =
     \<lparr>pre = None, post = ret,
      finalize = Some (bnd (logEvent (EvFinalize n)) (\<lambda>u. throw (OtherError n)))\<rparr>"

text \<open>Whether the event \<open>x\<close> occurs in a trace, and \<open>y\<close> occurs later than its first occurrence.\<close>

definition precedes :: "'e \<Rightarrow> 'e \<Rightarrow> 'e list \<Rightarrow> bool" where
  "precedes x y tr \<longleftrightarrow> x \<in> set tr \<and> y \<in> set (tl (dropWhile (\<lambda>e. e \<noteq> x) tr))"

section \<open>Executor (mod.ts: \<open>execOpt\<close>)\<close>




















section \<open>Action supervisor (action.ts)\<close>

text \<open>
  \<^verbatim>\<open>
  export interface Config {
    timeoutSeconds?: number;
    verbosity?: "verbose" | "quiet";
    colors?: boolean;
    formatOptions?: FormatOptions;
  }
  export const defaultConfig: Config = {
    timeoutSeconds: 120,
    verbosity: "verbose" as "verbose" | "quiet",
    colors: true,
    formatOptions: { successPrefix: "", errorPrefix: "" },
  };
  \<close>
  A number of seconds is a rational here. \<open>FormatOptions\<close> is declared in print.ts; the
  two fields that \<open>defaultConfig\<close> sets are kept. \<open>defaultConfig\<close> is an exported object
  that a program may change, so \<open>action\<close> takes its current value as an argument.
\<close>

datatype verbosity = Verbose | Quiet

record FormatOptions =
  successPrefix :: string
  errorPrefix :: string

record Config =
  timeoutSeconds :: "rat option"
  verbosity :: "verbosity option"
  colors :: "bool option"
  formatOptions :: "FormatOptions option"

definition defaultConfig :: Config where
  "defaultConfig =
     \<lparr>timeoutSeconds = Some 120, verbosity = Some Verbose, colors = Some True,
      formatOptions = Some \<lparr>successPrefix = [], errorPrefix = []\<rparr>\<rparr>"

text \<open>
  The host as \<open>action\<close> sees it: what has been written to standard output, the pending
  timers with their delays in milliseconds, and the identifier the next timer gets. The
  elapsed time that the source prints behind each tag is left out of the written lines.
\<close>

datatype tag = OK | SKIPPED | TIMEOUT | ERROR

datatype out_item =
    OutLabel string
  | OutTag tag bool
  | OutShellResult "string ShellResult" "FormatOptions option"

record runtime =
  written :: "out_item list"
  timers :: "(nat \<times> rat) list"
  nextTimerId :: nat

definition writeSync :: "out_item \<Rightarrow> runtime \<Rightarrow> runtime" where
  "writeSync x rt = rt\<lparr>written := written rt @ [x]\<rparr>"

definition setTimeout :: "rat \<Rightarrow> runtime \<Rightarrow> nat \<times> runtime" where
  "setTimeout delay rt =
     (nextTimerId rt,
      rt\<lparr>timers := timers rt @ [(nextTimerId rt, delay)], nextTimerId := Suc (nextTimerId rt)\<rparr>)"

definition clearTimeout :: "nat \<Rightarrow> runtime \<Rightarrow> runtime" where
  "clearTimeout tid rt = rt\<lparr>timers := filter (\<lambda>t. fst t \<noteq> tid) (timers rt)\<rparr>"

text \<open>A timer that fires is no longer pending.\<close>

definition timerFires :: "nat \<Rightarrow> runtime \<Rightarrow> runtime" where
  "timerFires tid rt = rt\<lparr>timers := filter (\<lambda>t. fst t \<noteq> tid) (timers rt)\<rparr>"

text \<open>
  \<^verbatim>\<open>
  function clearTimeoutCookie(tc: TimeoutCookie) {
    if (tc.timeoutId !== undefined) {
      clearTimeout(tc.timeoutId);
      tc.timeoutId = undefined;
    }
  }
  \<close>
  The cookie is its field \<open>timeoutId\<close>.
\<close>

definition clearTimeoutCookie :: "nat option \<Rightarrow> runtime \<Rightarrow> nat option \<times> runtime" where
  "clearTimeoutCookie tc rt =
     (case tc of None \<Rightarrow> (None, rt) | Some tid \<Rightarrow> (None, clearTimeout tid rt))"

text \<open>
  The work of an action. Called, it throws at once or returns a promise. Of a promise,
  \<open>action\<close> only sees how its race against the timer ends: for a timer of \<open>d\<close>
  milliseconds started when the promise is returned, \<open>p d\<close> is \<open>Some\<close> of the way the
  promise settles when it settles before the timer fires, and \<open>None\<close> when the timer
  fires first. The work is a function of the arguments it is called with.
\<close>

datatype 'a settled = Fulfilled 'a | Rejected error

datatype 'a invoked = Throws error | Promise "rat \<Rightarrow> 'a settled option"

datatype 'a raced = Value 'a | TimeoutSymbol

text \<open>
  \<^verbatim>\<open>
  async function timeoutPromise<T>(tc: TimeoutCookie, p: Promise<T>, timeoutSeconds: number): Promise<T | TimeoutSymbol> {
    const timeoutPromise = new Promise<TimeoutSymbol>((resolve) => {
      tc.timeoutId = setTimeout(() => {
        resolve(timeoutSymbol);
      }, timeoutSeconds * 1000);
    });
    const result = await Promise.race([p, timeoutPromise]);
    clearTimeoutCookie(tc);
    return result;
  }
  \<close>
  When \<open>p\<close> is rejected the await throws, and the call of \<open>clearTimeoutCookie\<close> behind it
  is not reached.
\<close>

definition timeoutPromise ::
  "nat option \<Rightarrow> (rat \<Rightarrow> 'a settled option) \<Rightarrow> rat \<Rightarrow> runtime
     \<Rightarrow> (error + 'a raced) \<times> nat option \<times> runtime" where
  "timeoutPromise tc p seconds rt =
     (case setTimeout (seconds * 1000) rt of (tid, rt1) \<Rightarrow>
        (case p (seconds * 1000) of
           Some (Fulfilled x) \<Rightarrow>
             (case clearTimeoutCookie (Some tid) rt1 of (tc2, rt2) \<Rightarrow> (Inr (Value x), tc2, rt2))
         | Some (Rejected e) \<Rightarrow> (Inl e, Some tid, rt1)
         | None \<Rightarrow>
             (case clearTimeoutCookie (Some tid) (timerFires tid rt1) of
                (tc2, rt2) \<Rightarrow> (Inr TimeoutSymbol, tc2, rt2))))"

text \<open>
  The options of a call, \<^verbatim>\<open>config?.x ?? defaultConfig?.x ?? fallback\<close>. Both values of
  \<open>verbosity\<close> are non-empty strings, so \<^verbatim>\<open>if (v)\<close> holds for both.
\<close>

definition optionOr :: "Config option \<Rightarrow> Config \<Rightarrow> (Config \<Rightarrow> 'x option) \<Rightarrow> 'x \<Rightarrow> 'x" where
  "optionOr config dflt field fallback =
     (case Option.bind config field of
        Some x \<Rightarrow> x
      | None \<Rightarrow> (case field dflt of Some x \<Rightarrow> x | None \<Rightarrow> fallback))"

definition truthy :: "verbosity \<Rightarrow> bool" where
  "truthy v = True"

definition logged :: "bool \<Rightarrow> out_item \<Rightarrow> runtime \<Rightarrow> runtime" where
  "logged v x rt = (if v then writeSync x rt else rt)"

text \<open>
  \<^verbatim>\<open>
  export async function action<T>(label: string, f: () => Promise<T>, config?: Config): Promise<T> {
    const v = config?.verbosity ?? defaultConfig?.verbosity ?? "verbose";
    const te = new TextEncoder();
    if (v) Deno.stdout.writeSync(te.encode(`${label}... `));
    const tc: TimeoutCookie = { timeoutId: undefined };
    const t0 = Date.now();
    try {
      const timeoutSeconds = config?.timeoutSeconds ?? defaultConfig?.timeoutSeconds ?? 120;
      const result = await timeoutPromise(tc, f(), timeoutSeconds);
      if (result === timeoutSymbol) {
        throw new TimeoutError();
      } else {
        if (v) { ... Deno.stdout.writeSync(te.encode(`${cgreen("OK")} [${elapsed.toFixed(1)}s]\n`)); }
        return result;
      }
    } catch (err) {
      if (err instanceof SkipError) {
        if (v) { ... Deno.stdout.writeSync(te.encode(`${cyellow("SKIPPED")} [${elapsed.toFixed(1)}s]\n`)); }
        return undefined as T;
      }
      if (v) {
        const errLabel = err instanceof TimeoutError ? "TIMEOUT" : "ERROR";
        ... Deno.stdout.writeSync(te.encode(`${cred(errLabel)} [${elapsed.toFixed(1)}s]\n`));
      }
      if (err instanceof ShellError) {
        if (v) {
          const fmtOpts = config?.formatOptions ?? defaultConfig?.formatOptions;
          Deno.stdout.writeSync(te.encode(formatShellResult(err.result, fmtOpts) + "\n"));
        }
      }
      throw err;
    } finally {
      clearTimeoutCookie(tc);
    }
  }
  \<close>
  The value returned is the value of the work, or \<open>undefined\<close>, which is \<open>None\<close>.
  \<open>f()\<close> calls the work with the empty list of arguments.
\<close>

definition tryBlock ::
  "('x list \<Rightarrow> 'a invoked) \<Rightarrow> rat \<Rightarrow> runtime \<Rightarrow> (error + 'a) \<times> nat option \<times> runtime" where
  "tryBlock f seconds rt =
     (case f [] of
        Throws e \<Rightarrow> (Inl e, None, rt)
      | Promise p \<Rightarrow>
          (case timeoutPromise None p seconds rt of
             (Inl e, tc, rt1) \<Rightarrow> (Inl e, tc, rt1)
           | (Inr TimeoutSymbol, tc, rt1) \<Rightarrow> (Inl TimeoutError, tc, rt1)
           | (Inr (Value x), tc, rt1) \<Rightarrow> (Inr x, tc, rt1)))"

definition catchBlock ::
  "bool \<Rightarrow> bool \<Rightarrow> FormatOptions option \<Rightarrow> error \<Rightarrow> runtime \<Rightarrow> (error + 'a option) \<times> runtime" where
  "catchBlock v useColors fmtOpts err rt =
     (if err = SkipError then (Inr None, logged v (OutTag SKIPPED useColors) rt)
      else
        (let errLabel = (if err = TimeoutError then TIMEOUT else ERROR);
             rt1 = logged v (OutTag errLabel useColors) rt;
             rt2 = (case err of ShellError r \<Rightarrow> logged v (OutShellResult r fmtOpts) rt1 | _ \<Rightarrow> rt1)
         in (Inl err, rt2)))"

definition action ::
  "string \<Rightarrow> ('x list \<Rightarrow> 'a invoked) \<Rightarrow> Config option \<Rightarrow> Config \<Rightarrow> runtime
     \<Rightarrow> (error + 'a option) \<times> runtime" where
  "action label f config dflt rt =
     (let v = truthy (optionOr config dflt verbosity Verbose);
          useColors = optionOr config dflt colors True;
          fmtOpts = (case Option.bind config formatOptions of
                       Some x \<Rightarrow> Some x | None \<Rightarrow> formatOptions dflt);
          rt0 = logged v (OutLabel label) rt;
          seconds = optionOr config dflt timeoutSeconds 120
      in case tryBlock f seconds rt0 of
           (tried, tc, rt1) \<Rightarrow>
             (case (case tried of
                      Inr x \<Rightarrow> (Inr (Some x), logged v (OutTag OK useColors) rt1)
                    | Inl err \<Rightarrow> catchBlock v useColors fmtOpts err rt1) of
                (res, rt2) \<Rightarrow> (res, snd (clearTimeoutCookie tc rt2))))"

text \<open>The host before anything has run.\<close>

definition runtime0 :: runtime where
  "runtime0 = \<lparr>written = [], timers = [], nextTimerId = 0\<rparr>"

text \<open>
  Works and options for concrete calls. \<open>slowWork\<close> is fulfilled with 7 after five
  seconds: it wins against a timer of more than 5000 milliseconds only. \<open>failingWork e\<close>
  is rejected with \<open>e\<close> before any timer fires, \<open>throwingWork e\<close> throws \<open>e\<close> when
  called. \<open>timeoutOnly t\<close> is the object \<^verbatim>\<open>{ timeoutSeconds: t }\<close>.
\<close>

definition slowWork :: "unit list \<Rightarrow> nat invoked" where
  "slowWork xs = Promise (\<lambda>d. if 5000 < d then Some (Fulfilled 7) else None)"

definition failingWork :: "error \<Rightarrow> unit list \<Rightarrow> nat invoked" where
  "failingWork e xs = Promise (\<lambda>d. Some (Rejected e))"

definition throwingWork :: "error \<Rightarrow> unit list \<Rightarrow> nat invoked" where
  "throwingWork e xs = Throws e"

definition timeoutOnly :: "rat \<Rightarrow> Config" where
  "timeoutOnly t = \<lparr>timeoutSeconds = Some t, verbosity = None, colors = None, formatOptions = None\<rparr>"

subsection \<open>The supervisor that hands its work a cancellation signal\<close>

text \<open>
  The repository's example of a timeout calls \<open>action\<close> with a work that takes a signal
  and passes it on to its shell calls, and ends through it. The \<open>action\<close> it calls is not
  the one above, whose work takes no argument. The state below adds to the host the
  signals created so far, those that have been aborted, and the steps of the supervisor
  that concern the work: calling it with a signal, aborting the signal, throwing.
\<close>

datatype step = StepCall nat | StepAbort nat | StepThrow error

record supervised =
  hostState :: runtime
  nextSignalId :: nat
  abortedSignals :: "nat list"
  steps :: "step list"

text \<open>
  Modelled from the spec: the action supervisor whose work receives a cancellation
  signal, which is missing from the sources (only its caller, the example, is there).
  In the words of the specification: it starts a timer for \<open>config.timeoutSeconds\<close>
  (default 120) with invoking the work, and races the completion of the work against the
  timer. If the timer fires first, a cancellation signal is communicated to the work and a
  distinguished timeout failure is raised to the caller. If the work completes first, the
  timer is cancelled. A skip raised by the work is logged and not raised again; any other
  failure is logged and raised again unchanged. The logging, the options and the timer are
  those of \<open>action\<close> above.
\<close>

definition runAction ::
  "string \<Rightarrow> (nat list \<Rightarrow> 'a invoked) \<Rightarrow> Config option \<Rightarrow> Config \<Rightarrow> supervised
     \<Rightarrow> (error + 'a option) \<times> supervised" where
  "runAction label f config dflt st =
     (let v = truthy (optionOr config dflt verbosity Verbose);
          useColors = optionOr config dflt colors True;
          fmtOpts = (case Option.bind config formatOptions of
                       Some x \<Rightarrow> Some x | None \<Rightarrow> formatOptions dflt);
          seconds = optionOr config dflt timeoutSeconds 120;
          sid = nextSignalId st;
          st0 = st\<lparr>hostState := logged v (OutLabel label) (hostState st),
                   nextSignalId := Suc sid, steps := steps st @ [StepCall sid]\<rparr>
      in case (case f [sid] of
                 Throws e \<Rightarrow> (Inl e, None, st0)
               | Promise p \<Rightarrow>
                   (case timeoutPromise None p seconds (hostState st0) of
                      (Inl e, tc, rt1) \<Rightarrow> (Inl e, tc, st0\<lparr>hostState := rt1\<rparr>)
                    | (Inr (Value x), tc, rt1) \<Rightarrow> (Inr x, tc, st0\<lparr>hostState := rt1\<rparr>)
                    | (Inr TimeoutSymbol, tc, rt1) \<Rightarrow>
                        (Inl TimeoutError, tc,
                         st0\<lparr>hostState := rt1, abortedSignals := abortedSignals st0 @ [sid],
                             steps := steps st0 @ [StepAbort sid, StepThrow TimeoutError]\<rparr>))) of
           (tried, tc, st1) \<Rightarrow>
             (case (case tried of
                      Inr x \<Rightarrow> (Inr (Some x), logged v (OutTag OK useColors) (hostState st1))
                    | Inl err \<Rightarrow> catchBlock v useColors fmtOpts err (hostState st1)) of
                (res, rt2) \<Rightarrow> (res, st1\<lparr>hostState := snd (clearTimeoutCookie tc rt2)\<rparr>)))"



section \<open>Properties of the quoting engine\<close>

lemma sq_neq_dq [simp]: "sq \<noteq> dq" "dq \<noteq> sq"
  by (simp_all add: sq_def dq_def)

text \<open>The cases of \<open>mod_test.ts\<close>.\<close>

lemma quoteString_mod_test:
  "quoteString ''-param=value'' = ''-param=value''"
  "quoteString ''a b'' = [sq] @ ''a b'' @ [sq]"
  "quoteString ''$foo'' = [sq] @ ''$foo'' @ [sq]"
  "quoteString ''foo'' = ''foo''"
  "quoteString ([dq] @ ''double'' @ [dq]) = [sq, dq] @ ''double'' @ [dq, sq]"
  "quoteString ([sq] @ ''single'' @ [sq]) = [dq, sq, dq, sq] @ ''single'' @ [sq, dq, sq, dq]"
  "quoteString [sq, sq, sq, sq] = [dq, sq, sq, sq, sq, dq]"
  "quoteString [sq, sq, sq] = [dq, sq, sq, sq, dq]"
  "quoteString [sq, sq] = [dq, sq, sq, dq]"
  "quoteString [sq] = [dq, sq, dq]"
  "quoteString [sq, CHR '' '', sq] = [dq, sq, dq, sq, CHR '' '', sq, dq, sq, dq]"
  "quoteString [] = [sq, sq]"
  by (simp_all add: quoteString_def safeShellCharsRE_test_def safeShellChar_def
      stripLeadingPair_def stripTrailingPair_def sq_def dq_def)

lemma safe_not_quote: "safeShellChar c \<Longrightarrow> c \<noteq> sq \<and> c \<noteq> dq"
  by (auto simp: safeShellChar_def sq_def dq_def)

lemma dequote_safe: "list_all safeShellChar s \<Longrightarrow> dequote Bare s = Some s"
proof (induction s)
  case Nil
  show ?case by simp
next
  case (Cons c s)
  then have "safeShellChar c" "dequote Bare s = Some s" by simp_all
  with safe_not_quote [of c] show ?case by simp
qed

lemma dequote_double_run:
  "\<forall>x \<in> set run. x = sq \<Longrightarrow>
   dequote InDouble (run @ dq # rest) = map_option ((@) run) (dequote Bare rest)"
proof (induction run)
  case Nil
  show ?case by (simp add: option.map_ident)
next
  case (Cons x run)
  then have x: "x = sq" and ih: "dequote InDouble (run @ dq # rest) = map_option ((@) run) (dequote Bare rest)"
    by simp_all
  have "sq \<notin> set ''$`''" "sq \<noteq> CHR 0x5C" by (simp_all add: sq_def)
  then show ?case using x ih by (simp add: option.map_comp comp_def)
qed

lemma dequote_single_replace:
  "dequote InSingle (replaceQuoteSpans s @ t) = map_option ((@) s) (dequote InSingle t)"
proof (induction s rule: replaceQuoteSpans.induct)
  case 1
  show ?case by (simp add: option.map_ident)
next
  case (2 c cs)
  show ?case
  proof (cases "c = sq")
    case True
    let ?run = "takeWhile (\<lambda>x. x = sq) cs"
    let ?rest = "dropWhile (\<lambda>x. x = sq) cs"
    have run: "\<forall>x \<in> set (sq # ?run). x = sq"
      by (auto dest: set_takeWhileD)
    have whole: "(sq # ?run) @ ?rest = c # cs"
      using True by simp
    have "dequote InSingle (replaceQuoteSpans (c # cs) @ t)
        = dequote InDouble ((sq # ?run) @ dq # (sq # replaceQuoteSpans ?rest @ t))"
      using True by simp
    also have "\<dots> = map_option ((@) (sq # ?run)) (dequote Bare (sq # replaceQuoteSpans ?rest @ t))"
      by (rule dequote_double_run [OF run])
    also have "\<dots> = map_option ((@) (sq # ?run)) (map_option ((@) ?rest) (dequote InSingle t))"
      using 2(1) [OF True] by simp
    also have "\<dots> = map_option ((@) ((sq # ?run) @ ?rest)) (dequote InSingle t)"
      by (cases "dequote InSingle t") simp_all
    finally show ?thesis by (simp only: whole)
  next
    case False
    then show ?thesis using 2(2) [OF False]
      by (cases "dequote InSingle t") simp_all
  qed
qed

lemma dequote_strip_leading: "dequote Bare (stripLeadingPair w) = dequote Bare w"
proof (cases "take 2 w = [sq, sq]")
  case True
  then have "w = [sq, sq] @ drop 2 w"
    by (metis append_take_drop_id)
  then have "dequote Bare w = dequote Bare ([sq, sq] @ drop 2 w)" by simp
  then show ?thesis using True by (simp add: stripLeadingPair_def)
next
  case False
  then show ?thesis by (simp add: stripLeadingPair_def)
qed

lemma dequote_trailing_pair: "dequote m (y @ [sq, sq]) = dequote m y"
proof (induction y arbitrary: m)
  case Nil
  show ?case by (cases m) simp_all
next
  case (Cons c y)
  show ?case by (cases m) (simp_all add: Cons.IH)
qed

lemma dequote_strip_trailing: "dequote m (stripTrailingPair w) = dequote m w"
proof (cases "2 \<le> length w \<and> drop (length w - 2) w = [sq, sq]")
  case True
  then have "w = take (length w - 2) w @ [sq, sq]"
    by (metis append_take_drop_id)
  then have "dequote m w = dequote m (take (length w - 2) w @ [sq, sq])" by simp
  also have "\<dots> = dequote m (take (length w - 2) w)" by (rule dequote_trailing_pair)
  finally show ?thesis using True by (simp add: stripTrailingPair_def)
next
  case False
  then show ?thesis unfolding stripTrailingPair_def by (simp only: if_False)
qed

lemma dequote_quoteString: "dequote Bare (quoteString s) = Some s"
proof -
  consider "s = []" | "s \<noteq> []" "safeShellCharsRE_test s" | "s \<noteq> []" "\<not> safeShellCharsRE_test s"
    by blast
  then show ?thesis
  proof cases
    case 1
    then show ?thesis by (simp add: quoteString_def)
  next
    case 2
    then show ?thesis
      by (simp add: quoteString_def safeShellCharsRE_test_def dequote_safe)
  next
    case 3
    let ?w = "[sq] @ replaceQuoteSpans s @ [sq]"
    have "dequote Bare ?w = dequote InSingle (replaceQuoteSpans s @ [sq])" by simp
    also have "\<dots> = Some s" by (simp add: dequote_single_replace)
    finally have "dequote Bare (stripTrailingPair (stripLeadingPair ?w)) = Some s"
      by (simp only: dequote_strip_leading dequote_strip_trailing)
    then show ?thesis using 3 by (simp add: quoteString_def)
  qed
qed

text \<open>
  Claim C1. For every string \<open>s\<close>, the shell's reading of \<open>quoteString s\<close> as one word
  gives back exactly \<open>s\<close>: the empty string, a single quote, runs of quotes of any
  length and every other text included.
\<close>

theorem quoteString_roundtrip: "shellWord (quoteString s) = Some s"
  by (simp add: shellWord_def dequote_quoteString)

text \<open>
  Claim C3, as stated, fails at the empty string: it has no character outside the safe
  class, and \<open>quoteString\<close> returns the empty pair of quotes for it.
\<close>

theorem quoteString_safe_counterexample:
  "list_all safeShellChar [] \<and> quoteString [] \<noteq> []"
  by (simp add: quoteString_def)

text \<open>
  Claim C3, amended. For every non-empty string \<open>s\<close> with all its characters in the safe
  class (letters, digits, comma, colon, equals, underscore, period, slash, hyphen),
  \<open>quoteString s = s\<close>.
\<close>

theorem quoteString_safe_identity:
  "s \<noteq> [] \<Longrightarrow> list_all safeShellChar s \<Longrightarrow> quoteString s = s"
  by (simp add: quoteString_def safeShellCharsRE_test_def)

theorem quoteString_safe_identity_witness:
  "''-param=value'' \<noteq> [] \<and> list_all safeShellChar ''-param=value''
   \<and> quoteString ''-param=value'' = ''-param=value''"
  using quoteString_safe_identity [of "''-param=value''"]
  by (simp add: safeShellChar_def)


lemma hd_quoteRuns: "hd (hd (quoteRuns (c # cs))) = c"
  by (cases "quoteRuns cs") simp_all

lemma quoteRuns_Cons_not_Nil: "quoteRuns (c # cs) \<noteq> []"
  by (cases "quoteRuns cs") simp_all

lemma quoteRuns_run:
  "quoteRuns (sq # cs)
     = (sq # takeWhile (\<lambda>x. x = sq) cs) # quoteRuns (dropWhile (\<lambda>x. x = sq) cs)"
proof (induction cs)
  case Nil
  show ?case by simp
next
  case (Cons x xs)
  show ?case
  proof (cases "x = sq")
    case True
    with Cons show ?thesis by simp
  next
    case False
    obtain g gs where g: "quoteRuns (x # xs) = g # gs"
      using quoteRuns_Cons_not_Nil [of x xs] by (cases "quoteRuns (x # xs)") auto
    have "hd g = x" using hd_quoteRuns [of x xs] g by simp
    with False g have "quoteRuns (sq # x # xs) = [sq] # quoteRuns (x # xs)"
      by (simp del: quoteRuns.simps add: quoteRuns.simps(2) [of sq "x # xs"])
    with False show ?thesis by simp
  qed
qed

lemma wrap_other:
  "c \<noteq> sq \<Longrightarrow> concat (map wrapRun (quoteRuns (c # cs))) = c # concat (map wrapRun (quoteRuns cs))"
  by (cases "quoteRuns cs") (auto simp: wrapRun_def)

lemma replaceQuoteSpans_runs: "replaceQuoteSpans s = concat (map wrapRun (quoteRuns s))"
proof (induction s rule: replaceQuoteSpans.induct)
  case 1
  show ?case by simp
next
  case (2 c cs)
  show ?case
  proof (cases "c = sq")
    case True
    from 2(1) [OF True] True show ?thesis
      by (simp del: quoteRuns.simps add: quoteRuns_run wrapRun_def)
  next
    case False
    from 2(2) [OF False] False show ?thesis
      by (simp del: quoteRuns.simps add: wrap_other)
  qed
qed

text \<open>
  \<open>quoteRuns\<close> does cut a text into runs: the pieces put together give the text back,
  and every piece is non-empty and all of quotes or all of other characters.
\<close>

lemma concat_quoteRuns: "concat (quoteRuns s) = s"
proof (induction s)
  case Nil
  show ?case by simp
next
  case (Cons c s)
  show ?case
  proof (cases "quoteRuns s")
    case Nil
    with Cons.IH have "s = []" by simp
    with Nil show ?thesis by simp
  next
    case grp: (Cons h hs)
    have "concat (quoteRuns (c # s)) = c # concat (h # hs)"
      by (simp add: grp)
    also have "concat (h # hs) = s"
      using Cons.IH by (simp only: grp)
    finally show ?thesis .
  qed
qed

lemma quoteRuns_uniform:
  "g \<in> set (quoteRuns s) \<Longrightarrow> g \<noteq> [] \<and> (\<forall>x \<in> set g. (x = sq) = (hd g = sq))"
proof (induction s arbitrary: g)
  case Nil
  then show ?case by simp
next
  case (Cons c s)
  show ?case
  proof (cases "quoteRuns s")
    case Nil
    then have "quoteRuns (c # s) = [[c]]" by simp
    with Cons.prems have "g \<in> set [[c]]" by (simp only:)
    then have "g = [c]" by simp
    then show ?thesis by simp
  next
    case grp: (Cons h hs)
    have h: "h \<noteq> [] \<and> (\<forall>x \<in> set h. (x = sq) = (hd h = sq))"
      by (rule Cons.IH) (simp add: grp)
    have rest: "g \<noteq> [] \<and> (\<forall>x \<in> set g. (x = sq) = (hd g = sq))" if "g \<in> set hs"
      by (rule Cons.IH) (simp add: grp that)
    show ?thesis
    proof (cases "(c = sq) = (hd h = sq)")
      case True
      then have "quoteRuns (c # s) = (c # h) # hs" by (simp add: grp)
      with Cons.prems have "g \<in> set ((c # h) # hs)" by (simp only:)
      then have "g = c # h \<or> g \<in> set hs" by simp
      then show ?thesis
      proof
        assume g: "g = c # h"
        have same: "(x = sq) = (c = sq)" if "x \<in> set (c # h)" for x
        proof (cases "x = c")
          case True
          then show ?thesis by simp
        next
          case False
          with that have "x \<in> set h" by simp
          with h have "(x = sq) = (hd h = sq)" by blast
          with \<open>(c = sq) = (hd h = sq)\<close> show ?thesis by blast
        qed
        have "\<forall>x \<in> set (c # h). (x = sq) = (hd (c # h) = sq)"
          unfolding list.sel using same by blast
        moreover have "c # h \<noteq> []" by simp
        ultimately show ?thesis unfolding g by blast
      next
        assume "g \<in> set hs"
        then show ?thesis by (rule rest)
      qed
    next
      case False
      then have "quoteRuns (c # s) = [c] # h # hs" by (simp add: grp)
      with Cons.prems have "g \<in> set ([c] # h # hs)" by (simp only:)
      then have "g = [c] \<or> g = h \<or> g \<in> set hs" by simp
      then consider "g = [c]" | "g = h" | "g \<in> set hs" by blast
      then show ?thesis
      proof cases
        case 1
        then show ?thesis by simp
      next
        case 2
        with h show ?thesis by blast
      next
        case 3
        then show ?thesis by (rule rest)
      qed
    qed
  qed
qed

text \<open>
  Claim C2. \<open>quoteString\<close> of the empty string is the two-character token \<open>''\<close>; of
  any other input not entirely in the safe class it is the input between single quotes,
  with every maximal run of single quotes replaced by \<open>'"run"'\<close>, then without an empty
  pair of single quotes at position 0 and without one at the end.
\<close>

theorem quoteString_by_runs:
  "quoteString [] = [sq, sq] \<and>
   (s \<noteq> [] \<and> \<not> list_all safeShellChar s \<longrightarrow> quoteString s = quoteString_spec s)"
  by (simp add: quoteString_def quoteString_spec_def safeShellCharsRE_test_def
      replaceQuoteSpans_runs)

theorem quoteString_by_runs_witness:
  "[sq, CHR '' '', sq] \<noteq> [] \<and> \<not> list_all safeShellChar [sq, CHR '' '', sq]
   \<and> quoteString_spec [sq, CHR '' '', sq] = [dq, sq, dq, sq, CHR '' '', sq, dq, sq, dq]
   \<and> quoteString [sq, CHR '' '', sq] = quoteString_spec [sq, CHR '' '', sq]"
proof -
  have a: "\<not> list_all safeShellChar [sq, CHR '' '', sq]"
    by (simp add: safeShellChar_def)
  have b: "quoteString_spec [sq, CHR '' '', sq] = [dq, sq, dq, sq, CHR '' '', sq, dq, sq, dq]"
    by (simp add: quoteString_spec_def wrapRun_def stripLeadingPair_def stripTrailingPair_def sq_def dq_def)
  from a b quoteString_by_runs [of "[sq, CHR '' '', sq]"] show ?thesis by simp
qed

section \<open>Properties of the template compiler\<close>

text \<open>The cases of \<open>mod_test.ts\<close>.\<close>

lemma quote_mod_test:
  "quote id [''ls -l '', '' '', ''''] [Scalar ''$foo'', Scalar ''31337'']
     = Inr (''ls -l '' @ [sq] @ ''$foo'' @ [sq] @ '' 31337'')"
  "quote id [''command '', ''''] [Array [''5'', ''true'', ''-v'', ''this is a sentence'']]
     = Inr (''command 5 true -v '' @ [sq] @ ''this is a sentence'' @ [sq])"
  "quote id [''a '', '' b''] [Array []] = Inr ''a b''"
  "quote id [''a'', ''b''] [Array []] = Inr ''ab''"
  "quote id ['''', '' b''] [Array []] = Inr ''b''"
  "quote id ['''', ''b''] [Array []] = Inr ''b''"
  "quote id [''a '', ''''] [Array []] = Inr ''a''"
  "quote id [''a'', ''''] [Array []] = Inr ''a''"
  "quote id ['''', '''', '' a '', ''''] [Array [], Array [], Array []] = Inr ''a''"
  by (simp_all add: quote_def quote_loop.simps pieceAt_def textOf_def isEmptyArrayArg_def
      argText_def quoteString_def safeShellCharsRE_test_def safeShellChar_def
      stripLeadingPair_def stripTrailingPair_def sq_def dq_def)

declare quote_loop.simps [simp del]





lemma quote_loop_done:
  assumes "length args \<le> i" "length pieces \<le> Suc i"
  shows "quote_loop str pieces args i r = Inr r"
  using assms by (subst quote_loop.simps) simp


lemma quote_single: "quote str [p0] [] = Inr p0"
  by (simp add: quote_def pieceAt_def textOf_def quote_loop_done)



section \<open>Properties of the tag functions\<close>

lemma bnd_assoc: "bnd (bnd m k) h = bnd m (\<lambda>x. bnd (k x) h)"
  by (rule ext) (simp add: bnd_def split: prod.splits sum.splits)

lemma bnd_ret_unit: "bnd m (\<lambda>u::unit. ret ()) = m"
  by (rule ext) (simp add: bnd_def ret_def split: prod.splits sum.splits)

lemma bnd_ret: "bnd m ret = m"
  by (rule ext) (simp add: bnd_def ret_def split: prod.splits sum.splits)

lemma nestedExec_eq:
  "nestedExec tf p = (\<lambda>c. bnd (applyPre p c) (\<lambda>c1. bnd (exec tf c1) (post p)))"
  by (rule ext) (simp add: nestedExec_def)

lemma ret_bnd: "bnd (ret x) k = k x"
  by (rule ext) (simp add: bnd_def ret_def)

lemma call_wrap [simp]: "call (wrapTagFunction f ex fins) = f"
  and exec_wrap [simp]: "exec (wrapTagFunction f ex fins) = ex"
  and finalizers_wrap [simp]: "finalizers (wrapTagFunction f ex fins) = fins"
  by (simp_all add: wrapTagFunction_def)

lemma runFinalizers_snoc:
  "runFinalizers (fs @ [f]) = bnd (runFinalizers fs) (\<lambda>u. callOptional f)"
proof (induction fs)
  case Nil
  show ?case by (simp add: ret_bnd bnd_ret)
next
  case (Cons g fs)
  then show ?case by (simp add: bnd_assoc)
qed

lemma runFinalizers_append:
  "runFinalizers (fs @ gs) = bnd (runFinalizers fs) (\<lambda>u. runFinalizers gs)"
proof (induction fs)
  case Nil
  show ?case by (simp add: ret_bnd)
next
  case (Cons g fs)
  then show ?case by (simp add: bnd_assoc)
qed

lemma call_mapTag:
  "call (mapTag str tf p) pieces args =
     tryFinally
       (bnd (liftResult (quote str pieces args)) (nestedExec tf p))
       (runFinalizers (finalizers tf @ [finalize p]))"
  by (simp add: mapTag_def nestedExec_eq runFinalizers_snoc)

lemma exec_mapTag: "exec (mapTag str tf p) = nestedExec tf p"
  by (simp add: mapTag_def)

lemma finalizers_mapTag: "finalizers (mapTag str tf p) = finalizers tf @ [finalize p]"
  by (simp add: mapTag_def)

lemma map_order_eq:
  "call (mapTag str (mapTag str tf A) B) pieces args =
     tryFinally
       (bnd (liftResult (quote str pieces args))
          (\<lambda>q. bnd (applyPre B q)
             (\<lambda>c1. bnd (applyPre A c1)
                (\<lambda>c2. bnd (exec tf c2)
                   (\<lambda>r. bnd (post A r) (post B))))))
       (bnd (runFinalizers (finalizers tf))
          (\<lambda>u. bnd (callOptional (finalize A)) (\<lambda>u. callOptional (finalize B))))"
  by (simp add: call_mapTag exec_mapTag finalizers_mapTag nestedExec_eq bnd_assoc
      runFinalizers_append bnd_ret)

lemma two_layers_trace:
  "call (mapTag id (mapTag id (plainTag id loggingExec) (loggingStage ''A'' False))
           (loggingStage ''B'' False)) [''echo''] [] []
   = (Inr ''echo B A'',
      [EvPre ''B'', EvPre ''A'', EvExec ''echo B A'', EvPost ''A'', EvPost ''B'',
       EvFinalize ''A'', EvFinalize ''B''])"
  by (simp add: map_order_eq plainTag_def loggingStage_def loggingExec_def logEvent_def
      tryFinally_def bnd_def ret_def throw_def liftResult_def applyPre_def callOptional_def
      quote_single)

text \<open>
  Claim C5, as stated, fails. With the layer \<open>A\<close> attached first and \<open>B\<close> second, the
  \<open>pre\<close> of \<open>A\<close> does not run before the \<open>pre\<close> of \<open>B\<close>, and the \<open>post\<close> of \<open>B\<close>
  does not run before the \<open>post\<close> of \<open>A\<close>: the trace is \<open>two_layers_trace\<close>.
\<close>

theorem map_order_counterexample:
  "\<not> precedes (EvPre ''A'') (EvPre ''B'')
       (snd (call (mapTag id (mapTag id (plainTag id loggingExec) (loggingStage ''A'' False))
                     (loggingStage ''B'' False)) [''echo''] [] []))
   \<and> \<not> precedes (EvPost ''B'') (EvPost ''A'')
       (snd (call (mapTag id (mapTag id (plainTag id loggingExec) (loggingStage ''A'' False))
                     (loggingStage ''B'' False)) [''echo''] [] []))"
  by (simp add: two_layers_trace precedes_def)

text \<open>
  Claim C5, amended. For a tag function built by attaching two \<open>map\<close> transforms, \<open>A\<close>
  first and then \<open>B\<close>, every invocation compiles the template, applies the \<open>pre\<close> of
  \<open>B\<close> to the compiled command and the \<open>pre\<close> of \<open>A\<close> to the result (reverse attach
  order), executes, and applies the \<open>post\<close> of \<open>A\<close> and then the \<open>post\<close> of \<open>B\<close>
  (attach order); the finalizers follow, whatever the outcome.
\<close>

theorem map_order:
  "call (mapTag str (mapTag str tf A) B) pieces args =
     tryFinally
       (bnd (liftResult (quote str pieces args))
          (\<lambda>q. bnd (applyPre B q)
             (\<lambda>c1. bnd (applyPre A c1)
                (\<lambda>c2. bnd (exec tf c2)
                   (\<lambda>r. bnd (post A r) (post B))))))
       (bnd (runFinalizers (finalizers tf))
          (\<lambda>u. bnd (callOptional (finalize A)) (\<lambda>u. callOptional (finalize B))))"
  by (rule map_order_eq)

lemma mapChain_snoc: "mapChain str tf (ps @ [p]) = mapTag str (mapChain str tf ps) p"
  by (simp add: mapChain_def)

lemma finalizers_mapChain:
  "finalizers (mapChain str tf ps) = finalizers tf @ map finalize ps"
proof (induction ps rule: rev_induct)
  case Nil
  show ?case by (simp add: mapChain_def)
next
  case (snoc p ps)
  then show ?case by (simp add: mapChain_snoc finalizers_mapTag)
qed

lemma runFinalizers_total:
  "\<forall>f \<in> set fs. neverThrows f \<Longrightarrow>
   runFinalizers fs s = (Inr (), foldl (\<lambda>s f. snd (callOptional f s)) s fs)"
proof (induction fs arbitrary: s)
  case Nil
  show ?case by (simp add: ret_def)
next
  case (Cons f fs)
  from Cons.prems have f: "neverThrows f" and fs: "\<forall>f \<in> set fs. neverThrows f"
    by simp_all
  from f have "fst (callOptional f s) = Inr ()"
    by (cases f) (simp_all add: neverThrows_def callOptional_def ret_def)
  then obtain s1 where s1: "callOptional f s = (Inr (), s1)"
    by (cases "callOptional f s") simp
  then have "runFinalizers (f # fs) s = runFinalizers fs s1"
    by (simp add: bnd_def)
  with Cons.IH [OF fs, of s1] s1 show ?case by simp
qed

lemma chain_call:
  assumes "ps \<noteq> []" and "\<forall>f \<in> set (finalizers tf @ map finalize ps). neverThrows f"
  shows "call (mapChain str tf ps) pieces args s =
           (case bnd (liftResult (quote str pieces args))
                   (nestedExec (mapChain str tf (butlast ps)) (last ps)) s of
              (r, s1) \<Rightarrow>
                (r, foldl (\<lambda>s f. snd (callOptional f s)) s1 (finalizers tf @ map finalize ps)))"
proof -
  from assms(1) have ps: "ps = butlast ps @ [last ps]" by simp
  let ?qs = "butlast ps" and ?p = "last ps"
  have fins: "finalizers (mapChain str tf ?qs) @ [finalize ?p] = finalizers tf @ map finalize ps"
    by (subst (3) ps) (simp add: finalizers_mapChain)
  have "call (mapChain str tf ps) pieces args
      = call (mapTag str (mapChain str tf ?qs) ?p) pieces args"
    by (subst ps) (simp only: mapChain_snoc)
  also have "\<dots> = tryFinally
       (bnd (liftResult (quote str pieces args)) (nestedExec (mapChain str tf ?qs) ?p))
       (runFinalizers (finalizers tf @ map finalize ps))"
    by (simp only: call_mapTag fins)
  finally show ?thesis
    using runFinalizers_total [OF assms(2)]
    by (simp add: tryFinally_def split: prod.splits)
qed

lemma postStages_Nil: "postStages [] = ret"
  by (rule ext) simp

lemma postStages_snoc_eq: "postStages (gs @ [g]) = (\<lambda>r. bnd (postStages gs r) g)"
proof (induction gs)
  case Nil
  show ?case by (rule ext) (simp add: ret_bnd bnd_ret postStages_Nil)
next
  case (Cons h gs)
  show ?case by (rule ext) (simp add: Cons.IH bnd_assoc)
qed

lemma exec_mapChain:
  "exec (mapChain str tf ps) c =
     bnd (preStages (map pre (rev ps)) c)
       (\<lambda>c1. bnd (exec tf c1) (postStages (map post ps)))"
proof (induction ps arbitrary: c rule: rev_induct)
  case Nil
  show ?case by (simp add: mapChain_def ret_bnd bnd_ret postStages_Nil)
next
  case (snoc p ps)
  have "exec (mapChain str tf (ps @ [p])) c
      = bnd (applyPre p c) (\<lambda>c1. bnd (exec (mapChain str tf ps) c1) (post p))"
    by (simp add: mapChain_snoc exec_mapTag nestedExec_def)
  also have "\<dots> = bnd (applyPre p c)
      (\<lambda>c1. bnd (bnd (preStages (map pre (rev ps)) c1)
                  (\<lambda>c2. bnd (exec tf c2) (postStages (map post ps)))) (post p))"
    by (simp only: snoc.IH)
  also have "\<dots> = bnd (applyPre p c)
      (\<lambda>c1. bnd (preStages (map pre (rev ps)) c1)
                  (\<lambda>c2. bnd (exec tf c2) (\<lambda>r. bnd (postStages (map post ps) r) (post p))))"
    by (simp only: bnd_assoc)
  also have "\<dots> = bnd (preStages (map pre (rev (ps @ [p]))) c)
       (\<lambda>c1. bnd (exec tf c1) (postStages (map post (ps @ [p]))))"
    by (simp add: applyPre_def postStages_snoc_eq bnd_assoc)
  finally show ?case .
qed

lemma chain_call_stages:
  assumes "ps \<noteq> []" and "\<forall>f \<in> set (finalizers tf @ map finalize ps). neverThrows f"
  shows "call (mapChain str tf ps) pieces args s =
           (case bnd (liftResult (quote str pieces args))
                   (\<lambda>q. bnd (preStages (map pre (rev ps)) q)
                      (\<lambda>c. bnd (exec tf c) (postStages (map post ps)))) s of
              (r, s1) \<Rightarrow>
                (r, foldl (\<lambda>s f. snd (callOptional f s)) s1 (finalizers tf @ map finalize ps)))"
proof -
  from assms(1) have ps: "ps = butlast ps @ [last ps]" by simp
  let ?qs = "butlast ps" and ?p = "last ps"
  have "nestedExec (mapChain str tf ?qs) ?p = exec (mapChain str tf (?qs @ [?p]))"
    by (simp only: mapChain_snoc exec_mapTag)
  also have "\<dots> = exec (mapChain str tf ps)" using ps by simp
  also have "\<dots> = (\<lambda>q. bnd (preStages (map pre (rev ps)) q)
                      (\<lambda>c. bnd (exec tf c) (postStages (map post ps))))"
    by (rule ext) (rule exec_mapChain)
  finally have body: "nestedExec (mapChain str tf ?qs) ?p = (\<lambda>q. bnd (preStages (map pre (rev ps)) q)
                      (\<lambda>c. bnd (exec tf c) (postStages (map post ps))))" .
  show ?thesis
    using chain_call [OF assms, of str pieces args s] by (simp only: body)
qed

lemma throwing_finalizer_trace:
  "call (mapChain id (plainTag id loggingExec) [throwingFinalizer ''A'', loggingStage ''B'' False])
      [''echo''] [] []
   = (Inl (OtherError ''A''), [EvPre ''B'', EvExec ''echo B'', EvPost ''B'', EvFinalize ''A''])"
  by (simp add: mapChain_def map_order_eq plainTag_def loggingStage_def throwingFinalizer_def
      loggingExec_def logEvent_def tryFinally_def bnd_def ret_def throw_def liftResult_def
      applyPre_def callOptional_def quote_single)

text \<open>
  Claim C6, as stated, fails. A finalizer that throws ends the cleanup: the finalizers
  attached after it are skipped. Here the finalizer of the first layer throws and the
  finalizer of the second layer never runs.
\<close>

theorem finalizers_counterexample:
  "EvFinalize ''B'' \<notin> set (snd (call (mapChain id (plainTag id loggingExec)
        [throwingFinalizer ''A'', loggingStage ''B'' False]) [''echo''] [] []))"
  by (simp add: throwing_finalizer_trace)

text \<open>
  Claim C6, amended. For every invocation of a tag function built by a chain of \<open>map\<close>
  calls in which no finalizer itself throws: the guarded block compiles the template,
  applies the \<open>pre\<close> stages, executes with the executor of the base and applies the
  \<open>post\<close> stages, and runs no finalizer; the outcome of the invocation is the outcome of
  that block, an error raised by a \<open>post\<close> included; and the final state is the state the
  block leaves with every finalizer of the chain applied to it exactly once, in attach
  order. So none is skipped, none runs twice, and a raised error reaches the caller after
  all the finalizers have run.
\<close>

theorem finalizers_run_once:
  "ps \<noteq> [] \<and> list_all neverThrows (finalizers tf @ map finalize ps) \<longrightarrow>
   call (mapChain str tf ps) pieces args s =
     (case bnd (liftResult (quote str pieces args))
             (\<lambda>q. bnd (preStages (map pre (rev ps)) q)
                (\<lambda>c. bnd (exec tf c) (postStages (map post ps)))) s of
        (r, s1) \<Rightarrow>
          (r, foldl (\<lambda>s f. snd (callOptional f s)) s1 (finalizers tf @ map finalize ps)))"
proof (intro impI, elim conjE)
  assume ne: "ps \<noteq> []" and all: "list_all neverThrows (finalizers tf @ map finalize ps)"
  from all have "\<forall>f \<in> set (finalizers tf @ map finalize ps). neverThrows f"
    by (simp only: list_all_iff)
  with ne show "call (mapChain str tf ps) pieces args s =
     (case bnd (liftResult (quote str pieces args))
             (\<lambda>q. bnd (preStages (map pre (rev ps)) q)
                (\<lambda>c. bnd (exec tf c) (postStages (map post ps)))) s of
        (r, s1) \<Rightarrow>
          (r, foldl (\<lambda>s f. snd (callOptional f s)) s1 (finalizers tf @ map finalize ps)))"
    by (rule chain_call_stages)
qed

theorem finalizers_run_once_witness:
  "[loggingStage ''A'' True, loggingStage ''B'' False] \<noteq> []
   \<and> list_all neverThrows
        (finalizers (plainTag id loggingExec)
           @ map finalize [loggingStage ''A'' True, loggingStage ''B'' False])
   \<and> call (mapChain id (plainTag id loggingExec)
             [loggingStage ''A'' True, loggingStage ''B'' False]) [''echo''] [] []
       = (Inl (OtherError ''A''),
          [EvPre ''B'', EvPre ''A'', EvExec ''echo B A'', EvPost ''A'',
           EvFinalize ''A'', EvFinalize ''B''])"
proof -
  let ?ps = "[loggingStage ''A'' True, loggingStage ''B'' False]"
  let ?tf = "plainTag id loggingExec :: (event list, string, string) TagFunction"
  have hyp: "list_all neverThrows (finalizers ?tf @ map finalize ?ps)"
    by (simp add: plainTag_def loggingStage_def neverThrows_def logEvent_def)
  have body: "bnd (liftResult (quote id [''echo''] []))
                (\<lambda>q. bnd (preStages (map pre (rev ?ps)) q)
                   (\<lambda>c. bnd (exec ?tf c) (postStages (map post ?ps)))) []
              = (Inl (OtherError ''A''),
                 [EvPre ''B'', EvPre ''A'', EvExec ''echo B A'', EvPost ''A''])"
    by (simp add: plainTag_def loggingStage_def loggingExec_def logEvent_def bnd_def ret_def
        throw_def liftResult_def quote_single)
  have "call (mapChain id ?tf ?ps) [''echo''] [] []
      = (case bnd (liftResult (quote id [''echo''] []))
                (\<lambda>q. bnd (preStages (map pre (rev ?ps)) q)
                   (\<lambda>c. bnd (exec ?tf c) (postStages (map post ?ps)))) [] of
           (r, s1) \<Rightarrow>
             (r, foldl (\<lambda>s f. snd (callOptional f s)) s1 (finalizers ?tf @ map finalize ?ps)))"
    by (rule finalizers_run_once [THEN mp]) (rule conjI, simp, rule hyp)
  also have "\<dots> = (Inl (OtherError ''A''),
          [EvPre ''B'', EvPre ''A'', EvExec ''echo B A'', EvPost ''A'',
           EvFinalize ''A'', EvFinalize ''B''])"
    unfolding body
    by (simp add: plainTag_def loggingStage_def callOptional_def logEvent_def)
  finally show ?thesis using hyp by simp
qed

section \<open>Properties of the executor\<close>













section \<open>Properties of the action supervisor\<close>

lemma tryBlock_pending:
  "f [] = Promise p \<Longrightarrow> p (seconds * 1000) = None \<Longrightarrow>
   tryBlock f seconds rt =
     (Inl TimeoutError, None, clearTimeout (nextTimerId rt) (timerFires (nextTimerId rt) (snd (setTimeout (seconds * 1000) rt))))"
  by (simp add: tryBlock_def timeoutPromise_def setTimeout_def clearTimeoutCookie_def)

lemma tryBlock_rejected:
  "f [] = Promise p \<Longrightarrow> p (seconds * 1000) = Some (Rejected e) \<Longrightarrow>
   tryBlock f seconds rt = (Inl e, Some (nextTimerId rt), snd (setTimeout (seconds * 1000) rt))"
  by (simp add: tryBlock_def timeoutPromise_def setTimeout_def)

lemma tryBlock_fulfilled:
  "f [] = Promise p \<Longrightarrow> p (seconds * 1000) = Some (Fulfilled x) \<Longrightarrow>
   tryBlock f seconds rt =
     (Inr x, None, clearTimeout (nextTimerId rt) (snd (setTimeout (seconds * 1000) rt)))"
  by (simp add: tryBlock_def timeoutPromise_def setTimeout_def clearTimeoutCookie_def)

lemma tryBlock_throws:
  "f [] = Throws e \<Longrightarrow> tryBlock f seconds rt = (Inl e, None, rt)"
  by (simp add: tryBlock_def)

lemma fst_catchBlock:
  "fst (catchBlock v c fo err rt) = (if err = SkipError then Inr None else Inl err)"
  by (simp add: catchBlock_def Let_def)

lemma fst_action:
  "fst (action label f config dflt rt) =
     (case fst (tryBlock f (optionOr config dflt timeoutSeconds 120)
                  (logged (truthy (optionOr config dflt verbosity Verbose)) (OutLabel label) rt)) of
        Inr x \<Rightarrow> Inr (Some x)
      | Inl err \<Rightarrow> if err = SkipError then Inr None else Inl err)"
  by (simp add: action_def Let_def case_prod_beta fst_catchBlock split: sum.splits)

lemma timers_logged [simp]: "timers (logged v x rt) = timers rt"
  and nextTimerId_logged [simp]: "nextTimerId (logged v x rt) = nextTimerId rt"
  by (simp_all add: logged_def writeSync_def)

lemma timers_catchBlock [simp]: "timers (snd (catchBlock v c fo err rt)) = timers rt"
  by (cases err) (simp_all add: catchBlock_def Let_def)

lemma timers_action_fulfilled:
  assumes "f [] = Promise p"
    and "p (optionOr config dflt timeoutSeconds 120 * 1000) = Some (Fulfilled x)"
  shows "timers (snd (action label f config dflt rt)) = filter (\<lambda>t. fst t \<noteq> nextTimerId rt) (timers rt)"
  using assms
  by (simp add: action_def Let_def case_prod_beta tryBlock_fulfilled clearTimeoutCookie_def
      clearTimeout_def setTimeout_def)

lemma action_outcomes_aux:
  assumes f: "f [] = Promise p" and d: "d = optionOr config dflt timeoutSeconds 120 * 1000"
  shows "(p d = None \<longrightarrow> fst (action label f config dflt rt) = Inl TimeoutError)"
    and "(p d = Some (Rejected SkipError) \<longrightarrow> (\<exists>u. fst (action label f config dflt rt) = Inr u))"
    and "(p d = Some (Rejected e) \<and> e \<noteq> SkipError \<longrightarrow> fst (action label f config dflt rt) = Inl e)"
    and "(p d = Some (Fulfilled x) \<longrightarrow>
           fst (action label f config dflt rt) = Inr (Some x)
           \<and> nextTimerId rt \<notin> fst ` set (timers (snd (action label f config dflt rt))))"
proof -
  show "p d = None \<longrightarrow> fst (action label f config dflt rt) = Inl TimeoutError"
    using f d by (simp add: fst_action tryBlock_pending)
  show "p d = Some (Rejected SkipError) \<longrightarrow> (\<exists>u. fst (action label f config dflt rt) = Inr u)"
    using f d by (simp add: fst_action tryBlock_rejected)
  show "p d = Some (Rejected e) \<and> e \<noteq> SkipError \<longrightarrow> fst (action label f config dflt rt) = Inl e"
    using f d by (simp add: fst_action tryBlock_rejected)
  show "p d = Some (Fulfilled x) \<longrightarrow>
           fst (action label f config dflt rt) = Inr (Some x)
           \<and> nextTimerId rt \<notin> fst ` set (timers (snd (action label f config dflt rt)))"
  proof
    assume px: "p d = Some (Fulfilled x)"
    with f d have "timers (snd (action label f config dflt rt))
        = filter (\<lambda>t. fst t \<noteq> nextTimerId rt) (timers rt)"
      by (simp add: timers_action_fulfilled)
    then have "nextTimerId rt \<notin> fst ` set (timers (snd (action label f config dflt rt)))"
      by auto
    moreover from f d px have "fst (action label f config dflt rt) = Inr (Some x)"
      by (simp add: fst_action tryBlock_fulfilled)
    ultimately show "fst (action label f config dflt rt) = Inr (Some x)
           \<and> nextTimerId rt \<notin> fst ` set (timers (snd (action label f config dflt rt)))"
      by simp
  qed
qed

lemma action_skip:
  "f [] = Throws SkipError \<or>
     (f [] = Promise p \<and> p (optionOr config dflt timeoutSeconds 120 * 1000) = Some (Rejected SkipError))
   \<Longrightarrow> fst (action label f config dflt rt) = Inr None"
  by (auto simp: fst_action tryBlock_rejected tryBlock_throws)

text \<open>
  Claim C7. The timer of an action runs for \<open>config.timeoutSeconds\<close>, by default the
  120 seconds of \<open>defaultConfig\<close>. If the promise of the work has not settled when the
  timer fires, the action raises \<open>TimeoutError\<close>; if the work raises \<open>SkipError\<close>, the
  action does not raise; if the work raises any other error, the action raises that same
  error; if the work completes first, the action returns its value and the timer it
  started is no longer pending.
\<close>

theorem action_outcomes:
  "(Option.bind config timeoutSeconds = Some t \<longrightarrow>
      optionOr config dflt timeoutSeconds 120 = t) \<and>
   (Option.bind config timeoutSeconds = None \<longrightarrow>
      optionOr config defaultConfig timeoutSeconds 120 = 120) \<and>
   (f [] = Promise p \<and> d = optionOr config dflt timeoutSeconds 120 * 1000 \<longrightarrow>
      (p d = None \<longrightarrow> fst (action label f config dflt rt) = Inl TimeoutError)
    \<and> (p d = Some (Rejected SkipError) \<longrightarrow> (\<exists>u. fst (action label f config dflt rt) = Inr u))
    \<and> (p d = Some (Rejected e) \<and> e \<noteq> SkipError \<longrightarrow>
          fst (action label f config dflt rt) = Inl e)
    \<and> (p d = Some (Fulfilled x) \<longrightarrow>
          fst (action label f config dflt rt) = Inr (Some x)
          \<and> nextTimerId rt \<notin> fst ` set (timers (snd (action label f config dflt rt))))) \<and>
   (f [] = Throws e \<longrightarrow>
      fst (action label f config dflt rt) = (if e = SkipError then Inr None else Inl e))"
proof (intro conjI impI)
  assume "Option.bind config timeoutSeconds = Some t"
  then show "optionOr config dflt timeoutSeconds 120 = t" by (simp add: optionOr_def)
next
  assume "Option.bind config timeoutSeconds = None"
  then show "optionOr config defaultConfig timeoutSeconds 120 = 120"
    by (simp add: optionOr_def defaultConfig_def)
next
  assume a: "f [] = Promise p \<and> d = optionOr config dflt timeoutSeconds 120 * 1000" "p d = None"
  with action_outcomes_aux(1) [of f p d config dflt label rt]
  show "fst (action label f config dflt rt) = Inl TimeoutError" by simp
next
  assume a: "f [] = Promise p \<and> d = optionOr config dflt timeoutSeconds 120 * 1000"
    "p d = Some (Rejected SkipError)"
  with action_outcomes_aux(2) [of f p d config dflt label rt]
  show "\<exists>u. fst (action label f config dflt rt) = Inr u" by simp
next
  assume a: "f [] = Promise p \<and> d = optionOr config dflt timeoutSeconds 120 * 1000"
    "p d = Some (Rejected e) \<and> e \<noteq> SkipError"
  with action_outcomes_aux(3) [of f p d config dflt e label rt]
  show "fst (action label f config dflt rt) = Inl e" by simp
next
  assume a: "f [] = Promise p \<and> d = optionOr config dflt timeoutSeconds 120 * 1000"
    "p d = Some (Fulfilled x)"
  with action_outcomes_aux(4) [of f p d config dflt x label rt]
  show "fst (action label f config dflt rt) = Inr (Some x)" by simp
next
  assume a: "f [] = Promise p \<and> d = optionOr config dflt timeoutSeconds 120 * 1000"
    "p d = Some (Fulfilled x)"
  with action_outcomes_aux(4) [of f p d config dflt x label rt]
  show "nextTimerId rt \<notin> fst ` set (timers (snd (action label f config dflt rt)))" by simp
next
  assume "f [] = Throws e"
  then show "fst (action label f config dflt rt) = (if e = SkipError then Inr None else Inl e)"
    by (simp add: fst_action tryBlock_throws)
qed

theorem action_outcomes_witness:
  "fst (action ''a'' slowWork (Some (timeoutOnly 1)) defaultConfig runtime0) = Inl TimeoutError
   \<and> fst (action ''a'' slowWork None defaultConfig runtime0) = Inr (Some 7)
   \<and> (\<exists>u. fst (action ''a'' (failingWork SkipError) None defaultConfig runtime0) = Inr u)
   \<and> fst (action ''a'' (failingWork (OtherError ''boom'')) None defaultConfig runtime0)
       = Inl (OtherError ''boom'')
   \<and> fst (action ''a'' (throwingWork (OtherError ''boom'')) None defaultConfig runtime0)
       = Inl (OtherError ''boom'')"
proof -
  have d1: "optionOr (Some (timeoutOnly 1)) defaultConfig timeoutSeconds 120 * 1000 = 1000"
    by (simp add: optionOr_def timeoutOnly_def)
  have d2: "optionOr None defaultConfig timeoutSeconds 120 * 1000 = 120000"
    by (simp add: optionOr_def defaultConfig_def)
  have "fst (action ''a'' slowWork (Some (timeoutOnly 1)) defaultConfig runtime0) = Inl TimeoutError"
    using action_outcomes [where f = slowWork
        and p = "\<lambda>d. if 5000 < d then Some (Fulfilled 7) else None" and d = 1000
        and config = "Some (timeoutOnly 1)" and dflt = defaultConfig and label = "''a''"
        and rt = runtime0]
    by (simp add: slowWork_def d1)
  moreover have "fst (action ''a'' slowWork None defaultConfig runtime0) = Inr (Some 7)"
    using action_outcomes [where f = slowWork
        and p = "\<lambda>d. if 5000 < d then Some (Fulfilled 7) else None" and d = 120000
        and config = None and dflt = defaultConfig and label = "''a''" and rt = runtime0
        and x = 7]
    by (simp add: slowWork_def d2)
  moreover have "\<exists>u. fst (action ''a'' (failingWork SkipError) None defaultConfig runtime0) = Inr u"
    using action_outcomes [where f = "failingWork SkipError"
        and p = "\<lambda>d. Some (Rejected SkipError)" and d = 120000
        and config = None and dflt = defaultConfig and label = "''a''" and rt = runtime0]
    by (simp add: failingWork_def d2)
  moreover have "fst (action ''a'' (failingWork (OtherError ''boom'')) None defaultConfig runtime0)
       = Inl (OtherError ''boom'')"
    using action_outcomes [where f = "failingWork (OtherError ''boom'')"
        and p = "\<lambda>d. Some (Rejected (OtherError ''boom''))" and d = 120000
        and config = None and dflt = defaultConfig and label = "''a''" and rt = runtime0
        and e = "OtherError ''boom''"]
    by (simp add: failingWork_def d2)
  moreover have "fst (action ''a'' (throwingWork (OtherError ''boom'')) None defaultConfig runtime0)
       = Inl (OtherError ''boom'')"
    using action_outcomes [where f = "throwingWork (OtherError ''boom'')"
        and config = None and dflt = defaultConfig and label = "''a''" and rt = runtime0
        and e = "OtherError ''boom''"]
    by (simp add: throwingWork_def)
  ultimately show ?thesis by simp
qed


lemma runAction_work_first:
  assumes "f [nextSignalId st] = Promise p"
    and "p (optionOr config dflt timeoutSeconds 120 * 1000) = Some r"
  shows "abortedSignals (snd (runAction label f config dflt st)) = abortedSignals st"
  using assms
  by (cases r) (simp_all add: runAction_def Let_def case_prod_beta timeoutPromise_def setTimeout_def
      clearTimeoutCookie_def)



text \<open>
  Claim C10. When the work raises \<open>SkipError\<close> (thrown by the call, or as the rejection
  of its promise before the timer fires), the action resolves and the value returned is
  \<open>undefined\<close>.
\<close>

theorem action_skip_returns_undefined:
  "f [] = Throws SkipError \<or>
     (f [] = Promise p \<and> p (optionOr config dflt timeoutSeconds 120 * 1000) = Some (Rejected SkipError))
   \<longrightarrow> fst (action label f config dflt rt) = Inr None"
  using action_skip [of f p config dflt label rt] by (intro impI)

theorem action_skip_returns_undefined_witness:
  "fst (action ''a'' (failingWork SkipError) None defaultConfig runtime0) = Inr None
   \<and> fst (action ''a'' (throwingWork SkipError) (Some (timeoutOnly 1)) defaultConfig runtime0) = Inr None"
proof -
  have "fst (action ''a'' (failingWork SkipError) None defaultConfig runtime0) = Inr None"
    using action_skip_returns_undefined [of "failingWork SkipError" "\<lambda>d. Some (Rejected SkipError)"
        None defaultConfig "''a''" runtime0]
    by (simp add: failingWork_def)
  moreover have "fst (action ''a'' (throwingWork SkipError) (Some (timeoutOnly 1)) defaultConfig runtime0) = Inr None"
    using action_skip_returns_undefined [of "throwingWork SkipError" _
        "Some (timeoutOnly 1)" defaultConfig "''a''" runtime0]
    by (simp add: throwingWork_def)
  ultimately show ?thesis by simp
qed


end
